theory Spec2Isabelle
  imports Main
begin

section \<open>Python strings\<close>

text \<open>
  A Python \<^verbatim>\<open>str\<close> is a sequence of Unicode code points and \<^verbatim>\<open>len\<close> counts code points,
  so a string is modelled as the list of its code points.
\<close>

type_synonym pystr = "nat list"

text \<open>
  The code points that \<^verbatim>\<open>str.strip()\<close> without argument removes: those for which
  \<^verbatim>\<open>str.isspace()\<close> holds.
\<close>

definition isspace :: "nat \<Rightarrow> bool" where
  "isspace c =
     ((9 \<le> c \<and> c \<le> 13) \<or> (28 \<le> c \<and> c \<le> 32) \<or> c = 133 \<or> c = 160 \<or> c = 5760 \<or>
      (8192 \<le> c \<and> c \<le> 8202) \<or> c = 8232 \<or> c = 8233 \<or> c = 8239 \<or> c = 8287 \<or>
      c = 12288)"

definition lstrip :: "pystr \<Rightarrow> pystr" where
  "lstrip s = dropWhile isspace s"

definition rstrip :: "pystr \<Rightarrow> pystr" where
  "rstrip s = rev (dropWhile isspace (rev s))"

definition strip :: "pystr \<Rightarrow> pystr" where
  "strip s = rstrip (lstrip s)"

text \<open>
  \<^verbatim>\<open>x or y\<close> for an optional string \<open>x\<close> and a string \<open>y\<close>: \<^verbatim>\<open>None\<close> and \<^verbatim>\<open>""\<close> are
  falsy.
\<close>

definition py_or :: "pystr option \<Rightarrow> pystr \<Rightarrow> pystr" where
  "py_or x y = (case x of None \<Rightarrow> y | Some s \<Rightarrow> if s \<noteq> [] then s else y)"

text \<open>An ASCII literal as a Python string.\<close>

definition str :: "string \<Rightarrow> pystr" where
  "str s = map of_char s"

section \<open>Data model\<close>

type_synonym user = nat

text \<open>
  Modelled from the spec: the \<^verbatim>\<open>Task\<close> model class (\<^verbatim>\<open>models.py\<close>) is not among the
  source files. Its fields are the ones the services, repositories and serializers read
  and write: \<^verbatim>\<open>id\<close> (assigned by the store on creation), \<^verbatim>\<open>user\<close> (the owner),
  \<^verbatim>\<open>title\<close>, \<^verbatim>\<open>description\<close> and \<^verbatim>\<open>created_at\<close> (set once at creation). Users are
  compared by their primary key.
\<close>

record task =
  task_id :: nat
  user :: user
  title :: pystr
  description :: pystr
  created_at :: nat

text \<open>
  The table behind \<^verbatim>\<open>Task.objects\<close>: its rows in insertion order and the next primary
  key the database hands out.
\<close>

record store =
  rows :: "task list"
  next_id :: nat

section \<open>Errors\<close>

text \<open>
  The messages of the exceptions raised in \<^verbatim>\<open>services.py\<close>, one constructor per text:
  \<^item> \<open>Title_required\<close>: "El titulo es requerido";
  \<^item> \<open>Title_too_short\<close>: "El titulo debe tener al menos 3 caracteres";
  \<^item> \<open>Title_too_long\<close>: "El titulo no puede exceder 200 caracteres";
  \<^item> \<open>Description_too_long\<close>: "La descripcion no puede exceder 1000 caracteres";
  \<^item> \<open>Task_not_found\<close>: "Tarea no encontrada";
  \<^item> \<open>No_permission\<close>: "No tienes permisos para acceder a esta tarea".
\<close>

datatype message =
    Title_required
  | Title_too_short
  | Title_too_long
  | Description_too_long
  | Task_not_found
  | No_permission

text \<open>
  The exception classes: Django's \<^verbatim>\<open>ValidationError\<close> and \<^verbatim>\<open>PermissionDenied\<close>, and
  \<open>AttributeError\<close> for a method call on \<^verbatim>\<open>None\<close>.
\<close>

datatype error =
    ValidationError message
  | PermissionDenied message
  | AttributeError

section \<open>Repository\<close>

definition get_by_id :: "store \<Rightarrow> nat \<Rightarrow> task option" where
  "get_by_id st tid = find (\<lambda>t. task_id t = tid) (rows st)"

text \<open>
  \<^verbatim>\<open>filter(user=user).order_by('-created_at')\<close>: a stable sort on the negated
  creation time, so that rows with equal \<^verbatim>\<open>created_at\<close> stay in insertion order (SQL
  leaves their order to the database).
\<close>

definition get_by_user :: "store \<Rightarrow> user \<Rightarrow> task list" where
  "get_by_user st u =
     sort_key (\<lambda>t. - int (created_at t)) (filter (\<lambda>t. user t = u) (rows st))"

text \<open>
  \<^verbatim>\<open>Task.objects.create\<close>: the row gets the next primary key and the current time
  \<open>now\<close>, which the environment supplies.
\<close>

definition create :: "store \<Rightarrow> nat \<Rightarrow> user \<Rightarrow> pystr \<Rightarrow> pystr \<Rightarrow> task \<times> store" where
  "create st now u t d =
     (let task = \<lparr>task_id = next_id st, user = u, title = t, description = d,
                  created_at = now\<rparr>
      in (task, st\<lparr>rows := rows st @ [task], next_id := Suc (next_id st)\<rparr>))"

text \<open>
  \<^verbatim>\<open>task.save()\<close>: an UPDATE of the row with the task's primary key when there is one,
  an INSERT otherwise. The repository calls it from \<^verbatim>\<open>update\<close> only, and the services
  call \<^verbatim>\<open>update\<close> only with a task they have just fetched, so the row is there and
  the UPDATE is the branch that runs. The INSERT branch is kept for totality and inserts
  the task as it is given: it does not model the fresh creation time and the advanced
  key sequence of a real insert, and nothing below depends on it.
\<close>

definition save :: "store \<Rightarrow> task \<Rightarrow> store" where
  "save st task =
     (if list_ex (\<lambda>r. task_id r = task_id task) (rows st)
      then st\<lparr>rows := map (\<lambda>r. if task_id r = task_id task then task else r) (rows st)\<rparr>
      else st\<lparr>rows := rows st @ [task]\<rparr>)"

definition update :: "store \<Rightarrow> task \<Rightarrow> pystr option \<Rightarrow> pystr option \<Rightarrow> task \<times> store" where
  "update st task new_title new_description =
     (let task1 = (case new_title of None \<Rightarrow> task | Some t \<Rightarrow> task\<lparr>title := t\<rparr>);
          task2 = (case new_description of None \<Rightarrow> task1
                   | Some d \<Rightarrow> task1\<lparr>description := d\<rparr>)
      in (task2, save st task2))"

definition delete :: "store \<Rightarrow> task \<Rightarrow> store" where
  "delete st task = st\<lparr>rows := filter (\<lambda>r. task_id r \<noteq> task_id task) (rows st)\<rparr>"

definition exists :: "store \<Rightarrow> nat \<Rightarrow> user \<Rightarrow> bool" where
  "exists st tid u = list_ex (\<lambda>t. task_id t = tid \<and> user t = u) (rows st)"

section \<open>Services\<close>

definition validate_task_data :: "pystr option \<Rightarrow> pystr option \<Rightarrow> error + unit" where
  "validate_task_data new_title new_description =
     (case new_title of
        None \<Rightarrow> Inl (ValidationError Title_required)
      | Some t \<Rightarrow>
          if t = [] \<or> strip t = [] then Inl (ValidationError Title_required)
          else if length (strip t) < 3 then Inl (ValidationError Title_too_short)
          else if length (strip t) > 200 then Inl (ValidationError Title_too_long)
          else if (case new_description of
                     None \<Rightarrow> False
                   | Some d \<Rightarrow> d \<noteq> [] \<and> length d > 1000)
            then Inl (ValidationError Description_too_long)
          else Inr ())"

definition check_task_ownership :: "task \<Rightarrow> user \<Rightarrow> error + unit" where
  "check_task_ownership task u =
     (if user task \<noteq> u then Inl (PermissionDenied No_permission) else Inr ())"

text \<open>
  Every operation of \<^verbatim>\<open>TaskService\<close> takes the store and returns its result together
  with the store after the call; an exception leaves the store as it was when raised.
\<close>

definition create_task ::
  "store \<Rightarrow> nat \<Rightarrow> user \<Rightarrow> pystr option \<Rightarrow> pystr option \<Rightarrow> (error + task) \<times> store" where
  "create_task st now u new_title new_description =
     (case validate_task_data new_title new_description of
        Inl e \<Rightarrow> (Inl e, st)
      | Inr _ \<Rightarrow>
          (case new_title of
             None \<Rightarrow> (Inl AttributeError, st)
           | Some t \<Rightarrow>
               (let (task, st') =
                      create st now u (strip t)
                        (case new_description of
                           None \<Rightarrow> []
                         | Some d \<Rightarrow> if d \<noteq> [] then strip d else [])
                in (Inr task, st'))))"

definition get_user_tasks :: "store \<Rightarrow> user \<Rightarrow> task list" where
  "get_user_tasks st u = get_by_user st u"

definition get_task_by_id :: "store \<Rightarrow> nat \<Rightarrow> user \<Rightarrow> error + task" where
  "get_task_by_id st tid u =
     (case get_by_id st tid of
        None \<Rightarrow> Inl (ValidationError Task_not_found)
      | Some task \<Rightarrow>
          (case check_task_ownership task u of
             Inl e \<Rightarrow> Inl e
           | Inr _ \<Rightarrow> Inr task))"

definition update_task ::
  "store \<Rightarrow> nat \<Rightarrow> user \<Rightarrow> pystr option \<Rightarrow> pystr option \<Rightarrow> (error + task) \<times> store" where
  "update_task st tid u new_title new_description =
     (case get_task_by_id st tid u of
        Inl e \<Rightarrow> (Inl e, st)
      | Inr task \<Rightarrow>
          (case (case new_title of
                   None \<Rightarrow> Inr None
                 | Some t \<Rightarrow>
                     (case validate_task_data (Some t)
                             (Some (py_or new_description (description task))) of
                        Inl e \<Rightarrow> Inl e
                      | Inr _ \<Rightarrow> Inr (Some (strip t)))) of
             Inl e \<Rightarrow> (Inl e, st)
           | Inr title' \<Rightarrow>
               (let (task', st') = update st task title' (map_option strip new_description)
                in (Inr task', st'))))"

definition delete_task :: "store \<Rightarrow> nat \<Rightarrow> user \<Rightarrow> (error + unit) \<times> store" where
  "delete_task st tid u =
     (case get_task_by_id st tid u of
        Inl e \<Rightarrow> (Inl e, st)
      | Inr task \<Rightarrow> (Inr (), delete st task))"

section \<open>API layer: mapping exceptions to responses\<close>

text \<open>
  \<^verbatim>\<open>BaseTaskView.handle_service_exceptions\<close>: the value of the wrapped call, or an
  error response with its HTTP status. The catch-all branch answers 500 with a generic
  text.
\<close>

datatype 'a response = Returned 'a | Error_response "message option" nat

definition handle_service_exceptions :: "error + 'a \<Rightarrow> 'a response" where
  "handle_service_exceptions r =
     (case r of
        Inr v \<Rightarrow> Returned v
      | Inl (ValidationError m) \<Rightarrow> Error_response (Some m) 400
      | Inl (PermissionDenied m) \<Rightarrow> Error_response (Some m) 403
      | Inl AttributeError \<Rightarrow> Error_response None 500)"

section \<open>Invariants and example data\<close>

text \<open>A string is trimmed when \<^verbatim>\<open>strip\<close> leaves it as it is.\<close>

definition trimmed :: "pystr \<Rightarrow> bool" where
  "trimmed s = (strip s = s)"

text \<open>
  The invariant of the data model on descriptions: at most 1000 characters, and stored
  trimmed (the empty string is trimmed).
\<close>

definition description_ok :: "task \<Rightarrow> bool" where
  "description_ok t = (length (description t) \<le> 1000 \<and> trimmed (description t))"

definition descriptions_ok :: "store \<Rightarrow> bool" where
  "descriptions_ok st = list_all description_ok (rows st)"

definition descriptions_trimmed :: "store \<Rightarrow> bool" where
  "descriptions_trimmed st = list_all (\<lambda>t. trimmed (description t)) (rows st)"

text \<open>
  The table's primary key: no two rows share an id, and every id in use is below the next
  one handed out.
\<close>

definition wf_store :: "store \<Rightarrow> bool" where
  "wf_store st =
     (distinct (map task_id (rows st)) \<and> list_all (\<lambda>t. task_id t < next_id st) (rows st))"

text \<open>A store with two tasks of two owners, and a description of 1001 characters.\<close>

definition example_task :: task where
  "example_task =
     \<lparr>task_id = 1, user = 7, title = str ''Buy milk'', description = str ''2%'',
      created_at = 100\<rparr>"

definition other_task :: task where
  "other_task =
     \<lparr>task_id = 2, user = 8, title = str ''Pay rent'', description = [], created_at = 200\<rparr>"

definition example_store :: store where
  "example_store = \<lparr>rows = [example_task, other_task], next_id = 3\<rparr>"

definition long_description :: pystr where
  "long_description = replicate 1001 120"

section \<open>Facts about \<open>strip\<close>\<close>

lemma length_strip_le: "length (strip s) \<le> length s"
  unfolding strip_def rstrip_def lstrip_def
  by (metis length_dropWhile_le length_rev le_trans)

lemma rstrip_prefix: "\<exists>ws. s = rstrip s @ ws"
proof -
  have "rev s = takeWhile isspace (rev s) @ dropWhile isspace (rev s)"
    by simp
  then have "s = rev (dropWhile isspace (rev s)) @ rev (takeWhile isspace (rev s))"
    by (metis rev_append rev_rev_ident)
  then show ?thesis
    unfolding rstrip_def by blast
qed

lemma lstrip_rstrip_lstrip: "lstrip (rstrip (lstrip s)) = rstrip (lstrip s)"
proof (cases "rstrip (lstrip s) = []")
  case True
  then show ?thesis
    by (simp add: lstrip_def)
next
  case False
  obtain ws where ws: "lstrip s = rstrip (lstrip s) @ ws"
    using rstrip_prefix by blast
  with False have "hd (rstrip (lstrip s)) = hd (lstrip s)"
    by (metis hd_append2)
  moreover have "lstrip s \<noteq> []"
    using False ws by auto
  then have "\<not> isspace (hd (lstrip s))"
    unfolding lstrip_def by (rule hd_dropWhile)
  ultimately show ?thesis
    unfolding lstrip_def [of "rstrip (lstrip s)"] by (simp add: dropWhile_eq_self_iff)
qed

lemma rstrip_idem: "rstrip (rstrip s) = rstrip s"
  by (simp add: rstrip_def)

lemma strip_idem: "strip (strip s) = strip s"
  by (simp add: strip_def lstrip_rstrip_lstrip rstrip_idem)

lemma strip_Nil: "strip [] = []"
  by (simp add: strip_def lstrip_def rstrip_def)

lemma strip_replicate: "\<not> isspace c \<Longrightarrow> strip (replicate n c) = replicate n c"
  by (cases n) (simp_all add: strip_def lstrip_def rstrip_def replicate_append_same)

section \<open>Facts about the repository\<close>

lemma get_by_id_task_id: "get_by_id st tid = Some task \<Longrightarrow> task_id task = tid"
  by (auto simp: get_by_id_def find_Some_iff)

lemma get_by_id_in_rows: "get_by_id st tid = Some task \<Longrightarrow> task \<in> set (rows st)"
  by (auto simp: get_by_id_def find_Some_iff)

lemma find_map_replace_other:
  assumes "task_id t' = i" and "j \<noteq> i"
  shows "find (\<lambda>r. task_id r = j) (map (\<lambda>r. if task_id r = i then t' else r) xs) =
         find (\<lambda>r. task_id r = j) xs"
  using assms by (induction xs) auto

lemma find_map_replace_same:
  assumes "find (\<lambda>r. task_id r = i) xs = Some t" and "task_id t' = i"
  shows "find (\<lambda>r. task_id r = i) (map (\<lambda>r. if task_id r = i then t' else r) xs) = Some t'"
  using assms by (induction xs) (auto split: if_splits)

lemma get_by_id_save:
  assumes "get_by_id st tid = Some task" and "task_id task' = tid"
  shows "get_by_id (save st task') j = (if j = tid then Some task' else get_by_id st j)"
proof -
  have ex: "list_ex (\<lambda>r. task_id r = task_id task') (rows st)"
    using assms get_by_id_in_rows [OF assms(1)] get_by_id_task_id [OF assms(1)]
    by (auto simp: list_ex_iff)
  show ?thesis
    using assms ex find_map_replace_same [of tid "rows st" task task']
      find_map_replace_other [of task' tid j "rows st"]
    by (simp add: save_def get_by_id_def)
qed

lemma map_replace_distinct:
  assumes "distinct (map task_id xs)" and "t \<in> set xs"
  shows "map (\<lambda>r. if task_id r = task_id t then t else r) xs = xs"
  using assms by (intro map_idI) (auto simp: distinct_map dest: inj_onD)

lemma save_same:
  assumes "get_by_id st tid = Some task" and "distinct (map task_id (rows st))"
  shows "save st task = st"
proof -
  have "task \<in> set (rows st)" using assms(1) by (rule get_by_id_in_rows)
  then show ?thesis
    using assms(2) by (auto simp: save_def list_ex_iff map_replace_distinct)
qed

lemma list_all_save:
  assumes "list_all P (rows st)" and "P task"
  shows "list_all P (rows (save st task))"
  using assms by (auto simp: save_def list_all_iff)

section \<open>Facts about the services\<close>

lemma get_task_by_id_owner:
  "get_by_id st tid = Some task \<Longrightarrow> user task = u \<Longrightarrow> get_task_by_id st tid u = Inr task"
  by (simp add: get_task_by_id_def check_task_ownership_def)

lemma get_task_by_id_Inr:
  "get_task_by_id st tid u = Inr task \<Longrightarrow> get_by_id st tid = Some task \<and> user task = u"
  by (auto simp: get_task_by_id_def check_task_ownership_def split: option.splits if_splits)

lemma update_task_no_title:
  assumes "get_by_id st tid = Some task" and "user task = u"
  shows "update_task st tid u None new_description =
           (case new_description of
              None \<Rightarrow> (Inr task, save st task)
            | Some d \<Rightarrow> (Inr (task\<lparr>description := strip d\<rparr>),
                         save st (task\<lparr>description := strip d\<rparr>)))"
  using get_task_by_id_owner [OF assms]
  by (simp add: update_task_def update_def Let_def split: option.splits)

lemma description_ok_strip: "length d \<le> 1000 \<Longrightarrow> description_ok (task\<lparr>description := strip d\<rparr>)"
  using length_strip_le [of d] by (simp add: description_ok_def trimmed_def strip_idem)

lemma create_task_descriptions_ok:
  assumes "descriptions_ok st"
  shows "descriptions_ok (snd (create_task st now u new_title new_description))"
proof (cases "validate_task_data new_title new_description")
  case (Inl e)
  then show ?thesis
    using assms by (simp add: create_task_def)
next
  case (Inr x)
  then obtain t where t: "new_title = Some t"
    by (auto simp: validate_task_data_def split: option.splits)
  have d: "new_description = Some d \<Longrightarrow> d \<noteq> [] \<Longrightarrow> length d \<le> 1000" for d
    using Inr t by (auto simp: validate_task_data_def split: if_splits)
  have "length (strip d) \<le> 1000" if "new_description = Some d" "d \<noteq> []" for d
    using d [OF that] length_strip_le [of d] by simp
  then show ?thesis
    using assms Inr t
    by (auto simp: create_task_def create_def Let_def descriptions_ok_def description_ok_def
        trimmed_def strip_idem strip_Nil split: option.splits)
qed

lemma update_task_title_descriptions_ok:
  assumes "descriptions_ok st"
  shows "descriptions_ok (snd (update_task st tid u (Some t) new_description))"
proof (cases "get_task_by_id st tid u")
  case (Inl e)
  then show ?thesis
    using assms by (simp add: update_task_def)
next
  case (Inr task)
  then have "task \<in> set (rows st)"
    using get_task_by_id_Inr get_by_id_in_rows by blast
  then have ok: "description_ok task"
    using assms by (simp add: descriptions_ok_def list_all_iff)
  show ?thesis
  proof (cases "validate_task_data (Some t) (Some (py_or new_description (description task)))")
    case (Inl e)
    then show ?thesis
      using assms Inr by (simp add: update_task_def)
  next
    case v: (Inr x)
    have d: "description_ok (task\<lparr>title := strip t, description := strip d\<rparr>)"
      if "new_description = Some d" for d
    proof (cases "d = []")
      case True
      then show ?thesis
        by (simp add: description_ok_def trimmed_def strip_Nil)
    next
      case False
      then have "length d \<le> 1000"
        using v that by (auto simp: validate_task_data_def py_or_def split: if_splits)
      then show ?thesis
        using length_strip_le [of d] by (simp add: description_ok_def trimmed_def strip_idem)
    qed
    have n: "description_ok (task\<lparr>title := strip t\<rparr>)"
      using ok by (simp add: description_ok_def)
    show ?thesis
      using assms Inr v d n
      by (auto simp: update_task_def update_def Let_def descriptions_ok_def
          intro!: list_all_save split: option.splits)
  qed
qed

lemma update_task_descriptions_trimmed:
  assumes "descriptions_trimmed st"
  shows "descriptions_trimmed (snd (update_task st tid u new_title new_description))"
proof (cases "get_task_by_id st tid u")
  case (Inl e)
  then show ?thesis
    using assms by (simp add: update_task_def)
next
  case (Inr task)
  then have "task \<in> set (rows st)"
    using get_task_by_id_Inr get_by_id_in_rows by blast
  then have ok: "trimmed (description task)"
    using assms by (simp add: descriptions_trimmed_def list_all_iff)
  show ?thesis
    using assms Inr ok
    by (auto simp: update_task_def update_def Let_def descriptions_trimmed_def trimmed_def
        strip_idem intro!: list_all_save split: option.splits sum.splits)
qed

lemma delete_task_removes:
  assumes "delete_task st tid u = (Inr (), st')"
  shows "get_by_id st' tid = None \<and>
         get_task_by_id st' tid u' = Inl (ValidationError Task_not_found)"
proof -
  obtain task where g: "get_task_by_id st tid u = Inr task" and st': "st' = delete st task"
    using assms by (auto simp: delete_task_def split: sum.splits)
  have "task_id task = tid"
    using get_task_by_id_Inr [OF g] get_by_id_task_id by blast
  then have "get_by_id st' tid = None"
    by (simp add: st' delete_def get_by_id_def find_None_iff)
  then show ?thesis
    by (simp add: get_task_by_id_def)
qed

section \<open>The primary key is preserved\<close>

lemma map_task_id_replace:
  "task_id t' = i \<Longrightarrow>
     map (task_id \<circ> (\<lambda>r. if task_id r = i then t' else r)) xs = map task_id xs"
  by (induction xs) auto

lemma wf_store_save:
  assumes "wf_store st" and "get_by_id st tid = Some task" and "task_id task' = tid"
  shows "wf_store (save st task')"
proof -
  have ex: "list_ex (\<lambda>r. task_id r = task_id task') (rows st)"
    using assms get_by_id_in_rows [OF assms(2)] get_by_id_task_id [OF assms(2)]
    by (auto simp: list_ex_iff)
  have "task_id task' < next_id st"
    using assms get_by_id_in_rows [OF assms(2)] get_by_id_task_id [OF assms(2)]
    by (auto simp: wf_store_def list_all_iff)
  then show ?thesis
    using assms(1) ex
    by (auto simp: wf_store_def save_def map_task_id_replace [OF refl] list_all_iff)
qed

lemma wf_store_create_task:
  assumes "wf_store st"
  shows "wf_store (snd (create_task st now u new_title new_description))"
  using assms
  by (auto simp: create_task_def create_def Let_def wf_store_def list_all_iff
      split: sum.splits option.splits)

lemma wf_store_update_task:
  assumes "wf_store st"
  shows "wf_store (snd (update_task st tid u new_title new_description))"
proof (cases "get_task_by_id st tid u")
  case (Inl e)
  then show ?thesis
    using assms by (simp add: update_task_def)
next
  case (Inr task)
  then have g: "get_by_id st tid = Some task"
    using get_task_by_id_Inr by blast
  have "wf_store (save st task')" if "task_id task' = task_id task" for task'
    using assms g that get_by_id_task_id [OF g] by (auto intro: wf_store_save)
  then show ?thesis
    using assms Inr
    by (auto simp: update_task_def update_def Let_def split: sum.splits option.splits)
qed

lemma wf_store_delete_task:
  assumes "wf_store st"
  shows "wf_store (snd (delete_task st tid u))"
  using assms
  by (auto simp: delete_task_def delete_def wf_store_def list_all_iff distinct_map_filter
      split: sum.splits)

lemma wf_store_distinct: "wf_store st \<Longrightarrow> distinct (map task_id (rows st))"
  by (simp add: wf_store_def)

section \<open>Facts about the example data\<close>

lemma not_isspace_120: "\<not> isspace 120"
  by (simp add: isspace_def)

lemma strip_long_description: "strip long_description = long_description"
  by (simp add: long_description_def strip_replicate not_isspace_120)

lemma get_by_id_example: "get_by_id example_store 1 = Some example_task"
  by (simp add: get_by_id_def example_store_def example_task_def)

lemma wf_store_example: "wf_store example_store"
  by (simp add: wf_store_def example_store_def example_task_def other_task_def)

lemma user_example: "user example_task = 7"
  by (simp add: example_task_def)

lemma strip_example_title: "strip (str ''  Buy milk '') = str ''Buy milk''"
  by (simp add: str_def strip_def lstrip_def rstrip_def isspace_def)

lemma strip_example_description: "strip (str '' 2% '') = str ''2%''"
  by (simp add: str_def strip_def lstrip_def rstrip_def isspace_def)

section \<open>Claims\<close>

subsection \<open>C1: a requester who is not the owner is refused\<close>

text \<open>
  C1. For every stored task and every requester other than its owner,
  \<open>get_task_by_id\<close>, \<open>update_task\<close> and \<open>delete_task\<close> each fail with
  \<open>PermissionDenied\<close> (the spec's Forbidden), whatever the update's arguments, and the
  store after the failed call is the store before it: the task's title, description,
  owner, creation time and existence are untouched.
\<close>

theorem non_owner_forbidden:
  assumes "get_by_id st tid = Some task" and "user task \<noteq> u"
  shows "get_task_by_id st tid u = Inl (PermissionDenied No_permission) \<and>
         update_task st tid u new_title new_description =
           (Inl (PermissionDenied No_permission), st) \<and>
         delete_task st tid u = (Inl (PermissionDenied No_permission), st)"
proof -
  have "get_task_by_id st tid u = Inl (PermissionDenied No_permission)"
    using assms by (simp add: get_task_by_id_def check_task_ownership_def)
  then show ?thesis
    by (simp add: update_task_def delete_task_def)
qed

theorem non_owner_forbidden_witness:
  "get_by_id example_store 1 = Some example_task \<and> user example_task \<noteq> 8 \<and>
   get_task_by_id example_store 1 8 = Inl (PermissionDenied No_permission) \<and>
   update_task example_store 1 8 (Some (str ''Buy oat milk'')) None =
     (Inl (PermissionDenied No_permission), example_store) \<and>
   delete_task example_store 1 8 = (Inl (PermissionDenied No_permission), example_store)"
proof -
  have h: "user example_task \<noteq> 8"
    by (simp add: example_task_def)
  show ?thesis
    using h get_by_id_example
      non_owner_forbidden [OF get_by_id_example h, of "Some (str ''Buy oat milk'')" None]
    by blast
qed

subsection \<open>C2: the failure for a missing task\<close>

text \<open>
  C2. The claim asks that a lookup of an id that is not in the store fails with a
  not-found kind distinct from the kind of field validation. Evaluated on the example
  store, where no task has id 9: \<open>get_task_by_id\<close> raises \<open>ValidationError\<close>, the class
  that \<open>validate_task_data\<close> raises for an empty title, and
  \<open>handle_service_exceptions\<close> answers both with status 400. The two failures differ
  in their message only.
\<close>

theorem missing_task_is_validation_error:
  "get_by_id example_store 9 = None \<and>
   get_task_by_id example_store 9 7 = Inl (ValidationError Task_not_found) \<and>
   handle_service_exceptions (get_task_by_id example_store 9 7) =
     Error_response (Some Task_not_found) 400 \<and>
   validate_task_data (Some []) None = Inl (ValidationError Title_required) \<and>
   handle_service_exceptions (validate_task_data (Some []) None) =
     Error_response (Some Title_required) 400"
  by (simp add: get_task_by_id_def get_by_id_def example_store_def example_task_def
      other_task_def handle_service_exceptions_def validate_task_data_def)

subsection \<open>C3: validation on an update of the description alone\<close>

text \<open>
  C3. The claim asks that an update by the owner that supplies only a description still
  runs the combined validation, so that a description of more than 1000 characters is
  rejected. Evaluated on the example store with a description of 1001 characters:
  \<open>validate_task_data\<close> rejects the stored title with that description, and
  \<open>update_task\<close> rejects it when a title comes with it, but with the title absent
  \<open>update_task\<close> succeeds and returns the task with the 1001 characters as its
  description.
\<close>

theorem update_task_description_only_not_validated:
  "validate_task_data (Some (title example_task)) (Some long_description) =
     Inl (ValidationError Description_too_long) \<and>
   update_task example_store 1 7 (Some (title example_task)) (Some long_description) =
     (Inl (ValidationError Description_too_long), example_store) \<and>
   fst (update_task example_store 1 7 None (Some long_description)) =
     Inr (example_task\<lparr>description := long_description\<rparr>)"
proof -
  have t: "strip (title example_task) = str ''Buy milk''"
    by (simp add: example_task_def str_def strip_def lstrip_def rstrip_def isspace_def)
  have l: "length long_description = 1001" "long_description \<noteq> []"
    by (auto simp: long_description_def)
  have v: "validate_task_data (Some (title example_task)) (Some long_description) =
     Inl (ValidationError Description_too_long)"
    using t l by (simp add: validate_task_data_def str_def example_task_def)
  have g: "get_task_by_id example_store 1 7 = Inr example_task"
    using get_by_id_example user_example by (rule get_task_by_id_owner)
  have "py_or (Some long_description) (description example_task) = long_description"
    using l by (simp add: py_or_def)
  then have u:
    "update_task example_store 1 7 (Some (title example_task)) (Some long_description) =
       (Inl (ValidationError Description_too_long), example_store)"
    using g v by (simp add: update_task_def)
  show ?thesis
    using v u update_task_no_title [OF get_by_id_example user_example, of "Some long_description"]
    by (simp add: strip_long_description)
qed

subsection \<open>C4: the bound on stored descriptions\<close>

text \<open>
  C4. The claim asks that \<open>create_task\<close> and \<open>update_task\<close> keep every stored
  description trimmed and at most 1000 characters long. Evaluated on the example store,
  which satisfies the invariant: after the owner's \<open>update_task\<close> with the title absent
  and a description of 1001 characters the store no longer satisfies it. (The lemmas
  \<open>create_task_descriptions_ok\<close>, \<open>update_task_title_descriptions_ok\<close> and
  \<open>update_task_descriptions_trimmed\<close> above show what is preserved: the whole invariant
  by \<open>create_task\<close> and by \<open>update_task\<close> with a title, and trimming by every
  \<open>update_task\<close>.)
\<close>

theorem update_task_breaks_description_bound:
  "descriptions_ok example_store \<and>
   \<not> descriptions_ok (snd (update_task example_store 1 7 None (Some long_description)))"
proof -
  have a: "descriptions_ok example_store"
    by (simp add: descriptions_ok_def description_ok_def trimmed_def example_store_def
        example_task_def other_task_def str_def strip_def lstrip_def rstrip_def isspace_def)
  have "snd (update_task example_store 1 7 None (Some long_description)) =
        save example_store (example_task\<lparr>description := long_description\<rparr>)"
    using update_task_no_title [OF get_by_id_example user_example, of "Some long_description"]
    by (simp add: strip_long_description)
  moreover have
    "\<not> descriptions_ok (save example_store (example_task\<lparr>description := long_description\<rparr>))"
    by (simp add: descriptions_ok_def description_ok_def save_def example_store_def
        example_task_def other_task_def long_description_def)
  ultimately show ?thesis
    using a by simp
qed

subsection \<open>C5: creating a task from valid data\<close>

text \<open>
  C5. For every owner, every title whose trimmed length is between 3 and 200 and every
  description of at most 1000 characters, \<open>create_task\<close> succeeds: it returns, and
  appends to the store, the task with the next id, the given owner, the trimmed title
  and the trimmed description (the empty description when none is given).
\<close>

theorem create_task_valid:
  assumes "3 \<le> length (strip t)" and "length (strip t) \<le> 200" and "length d \<le> 1000"
  shows "create_task st now u (Some t) (Some d) =
           (Inr \<lparr>task_id = next_id st, user = u, title = strip t, description = strip d,
                 created_at = now\<rparr>,
            st\<lparr>rows := rows st @ [\<lparr>task_id = next_id st, user = u, title = strip t,
                                    description = strip d, created_at = now\<rparr>],
               next_id := Suc (next_id st)\<rparr>) \<and>
         create_task st now u (Some t) None =
           (Inr \<lparr>task_id = next_id st, user = u, title = strip t, description = [],
                 created_at = now\<rparr>,
            st\<lparr>rows := rows st @ [\<lparr>task_id = next_id st, user = u, title = strip t,
                                    description = [], created_at = now\<rparr>],
               next_id := Suc (next_id st)\<rparr>)"
proof -
  have ne: "strip t \<noteq> []" "t \<noteq> []"
    using assms(1) by (auto simp: strip_Nil)
  have v1: "validate_task_data (Some t) (Some d) = Inr ()"
    using assms ne by (simp add: validate_task_data_def)
  have v2: "validate_task_data (Some t) None = Inr ()"
    using assms ne by (simp add: validate_task_data_def)
  show ?thesis
    using v1 v2 by (simp add: create_task_def create_def Let_def strip_Nil)
qed

theorem create_task_valid_witness:
  "3 \<le> length (strip (str ''  Buy milk '')) \<and> length (strip (str ''  Buy milk '')) \<le> 200 \<and>
   length (str '' 2% '') \<le> 1000 \<and>
   create_task example_store 300 7 (Some (str ''  Buy milk '')) (Some (str '' 2% '')) =
     (Inr \<lparr>task_id = 3, user = 7, title = str ''Buy milk'', description = str ''2%'',
           created_at = 300\<rparr>,
      \<lparr>rows = [example_task, other_task,
               \<lparr>task_id = 3, user = 7, title = str ''Buy milk'', description = str ''2%'',
                created_at = 300\<rparr>],
       next_id = 4\<rparr>)"
proof -
  have h: "3 \<le> length (strip (str ''  Buy milk ''))"
    "length (strip (str ''  Buy milk '')) \<le> 200"
    "length (str '' 2% '') \<le> 1000"
    by (simp_all add: strip_example_title) (simp_all add: str_def)
  show ?thesis
    using h create_task_valid [OF h, of example_store 300 7]
    by (simp add: strip_example_title strip_example_description example_store_def)
qed

subsection \<open>C6: creating a task with an invalid title\<close>

text \<open>
  C6. For an absent title, and for every title whose trimmed length is below 3 (empty
  and whitespace-only titles among them) or above 200, \<open>create_task\<close> fails with
  \<open>ValidationError\<close> (the spec's InvalidInput), whatever the description, and the store
  after the call is the store before it.
\<close>

theorem create_task_invalid_title:
  assumes "length (strip t) < 3 \<or> 200 < length (strip t)"
  shows "create_task st now u None d = (Inl (ValidationError Title_required), st) \<and>
         create_task st now u (Some t) d =
           (Inl (ValidationError
                  (if strip t = [] then Title_required
                   else if length (strip t) < 3 then Title_too_short
                   else Title_too_long)), st)"
proof -
  have "t = [] \<Longrightarrow> strip t = []"
    by (simp add: strip_Nil)
  then show ?thesis
    using assms by (auto simp: create_task_def validate_task_data_def)
qed

theorem create_task_invalid_title_witness:
  "length (strip (str '' a '')) < 3 \<and>
   create_task example_store 300 7 None (Some (str ''2%'')) =
     (Inl (ValidationError Title_required), example_store) \<and>
   create_task example_store 300 7 (Some (str '' a '')) (Some (str ''2%'')) =
     (Inl (ValidationError Title_too_short), example_store) \<and>
   create_task example_store 300 7 (Some (str ''   '')) (Some (str ''2%'')) =
     (Inl (ValidationError Title_required), example_store)"
proof -
  have s: "strip (str '' a '') = str ''a''" "strip (str ''   '') = []"
    by (simp_all add: str_def strip_def lstrip_def rstrip_def isspace_def)
  have h: "length (strip (str '' a '')) < 3 \<or> 200 < length (strip (str '' a ''))"
    and k: "length (strip (str ''   '')) < 3 \<or> 200 < length (strip (str ''   ''))"
    by (simp_all add: s) (simp add: str_def)
  show ?thesis
    using create_task_invalid_title [OF h, of example_store 300 7 "Some (str ''2%'')"]
      create_task_invalid_title [OF k, of example_store 300 7 "Some (str ''2%'')"]
    by (simp add: s) (simp add: str_def)
qed

subsection \<open>C7: an update of the description alone changes nothing else\<close>

text \<open>
  C7. For every task owned by the requester, \<open>update_task\<close> with the title absent and
  a description \<open>d\<close> succeeds and returns the task with its description replaced by the
  trimmed \<open>d\<close>; that is the task then stored under the id. Its id, owner, title and
  creation time are those of the task before, and every other id looks up what it did
  before.
\<close>

theorem update_task_description_only:
  assumes "get_by_id st tid = Some task" and "user task = u"
  shows "fst (update_task st tid u None (Some d)) = Inr (task\<lparr>description := strip d\<rparr>) \<and>
         snd (update_task st tid u None (Some d)) = save st (task\<lparr>description := strip d\<rparr>) \<and>
         get_by_id (snd (update_task st tid u None (Some d))) tid =
           Some (task\<lparr>description := strip d\<rparr>) \<and>
         (\<forall>j. j \<noteq> tid \<longrightarrow>
           get_by_id (snd (update_task st tid u None (Some d))) j = get_by_id st j) \<and>
         task_id (task\<lparr>description := strip d\<rparr>) = task_id task \<and>
         user (task\<lparr>description := strip d\<rparr>) = user task \<and>
         title (task\<lparr>description := strip d\<rparr>) = title task \<and>
         created_at (task\<lparr>description := strip d\<rparr>) = created_at task"
proof -
  have g: "get_task_by_id st tid u = Inr task"
    using assms by (rule get_task_by_id_owner)
  have u: "update_task st tid u None (Some d) =
             (Inr (task\<lparr>description := strip d\<rparr>), save st (task\<lparr>description := strip d\<rparr>))"
    using g by (simp add: update_task_def update_def Let_def)
  have i: "task_id (task\<lparr>description := strip d\<rparr>) = tid"
    using get_by_id_task_id [OF assms(1)] by simp
  have "get_by_id (save st (task\<lparr>description := strip d\<rparr>)) j =
          (if j = tid then Some (task\<lparr>description := strip d\<rparr>) else get_by_id st j)" for j
    using assms(1) i by (rule get_by_id_save)
  then show ?thesis
    using u by simp
qed

theorem update_task_description_only_witness:
  "get_by_id example_store 1 = Some example_task \<and> user example_task = 7 \<and>
   fst (update_task example_store 1 7 None (Some (str ''x''))) =
     Inr \<lparr>task_id = 1, user = 7, title = str ''Buy milk'', description = str ''x'',
          created_at = 100\<rparr> \<and>
   snd (update_task example_store 1 7 None (Some (str ''x''))) =
     \<lparr>rows = [\<lparr>task_id = 1, user = 7, title = str ''Buy milk'', description = str ''x'',
                created_at = 100\<rparr>, other_task],
      next_id = 3\<rparr>"
proof -
  have s: "strip (str ''x'') = str ''x''"
    by (simp add: str_def strip_def lstrip_def rstrip_def isspace_def)
  have e1: "example_task\<lparr>description := strip (str ''x'')\<rparr> =
     \<lparr>task_id = 1, user = 7, title = str ''Buy milk'', description = str ''x'',
      created_at = 100\<rparr>"
    by (simp add: s example_task_def)
  have e2: "save example_store
      \<lparr>task_id = 1, user = 7, title = str ''Buy milk'', description = str ''x'',
       created_at = 100\<rparr> =
     \<lparr>rows = [\<lparr>task_id = 1, user = 7, title = str ''Buy milk'', description = str ''x'',
                created_at = 100\<rparr>, other_task],
      next_id = 3\<rparr>"
    by (simp add: save_def example_store_def example_task_def other_task_def)
  show ?thesis
    using update_task_description_only [OF get_by_id_example user_example, of "str ''x''"]
      get_by_id_example user_example
    unfolding e1 e2 by blast
qed

subsection \<open>C8: the lookup of a deleted task\<close>

text \<open>
  C8. The claim asks that after a successful \<open>delete_task\<close> the task is gone and a
  further \<open>get_task_by_id\<close> for its id fails with NotFound. Evaluated on the example
  store, where user 7 deletes task 1: the delete succeeds and no task is left under
  id 1, but the further \<open>get_task_by_id\<close> raises \<open>ValidationError\<close>, the class that
  \<open>validate_task_data\<close> raises for an empty title, and \<open>handle_service_exceptions\<close>
  answers both with status 400. There is no not-found kind for it to fail with. (The
  lemma \<open>delete_task_removes\<close> above shows the same of every successful delete.)
\<close>

theorem deleted_task_lookup_is_validation_error:
  "delete_task example_store 1 7 = (Inr (), \<lparr>rows = [other_task], next_id = 3\<rparr>) \<and>
   get_by_id (snd (delete_task example_store 1 7)) 1 = None \<and>
   get_task_by_id (snd (delete_task example_store 1 7)) 1 7 =
     Inl (ValidationError Task_not_found) \<and>
   handle_service_exceptions (get_task_by_id (snd (delete_task example_store 1 7)) 1 7) =
     Error_response (Some Task_not_found) 400 \<and>
   handle_service_exceptions (validate_task_data (Some []) None) =
     Error_response (Some Title_required) 400"
proof -
  have g: "get_task_by_id example_store 1 7 = Inr example_task"
    using get_by_id_example user_example by (rule get_task_by_id_owner)
  have h: "delete_task example_store 1 7 = (Inr (), \<lparr>rows = [other_task], next_id = 3\<rparr>)"
    using g by (simp add: delete_task_def delete_def example_store_def example_task_def
        other_task_def)
  have r: "get_by_id \<lparr>rows = [other_task], next_id = 3\<rparr> 1 = None"
    "get_task_by_id \<lparr>rows = [other_task], next_id = 3\<rparr> 1 7 =
       Inl (ValidationError Task_not_found)"
    using delete_task_removes [OF h, of 7] by simp_all
  have v: "handle_service_exceptions (validate_task_data (Some []) None) =
     Error_response (Some Title_required) 400"
    by (simp add: validate_task_data_def handle_service_exceptions_def)
  show ?thesis
    unfolding h snd_conv r using v by (simp add: handle_service_exceptions_def)
qed

subsection \<open>C9: the tasks of a user\<close>

text \<open>
  C9. \<open>get_user_tasks\<close> returns what the repository's \<open>get_by_user\<close> returns, as it is:
  the rows of the store whose owner is the given user, each as often as the store has
  it, in descending order of creation time.
\<close>

theorem get_user_tasks_sorted:
  "get_user_tasks st u = get_by_user st u \<and>
   set (get_user_tasks st u) = {t. t \<in> set (rows st) \<and> user t = u} \<and>
   length (get_user_tasks st u) = length (filter (\<lambda>t. user t = u) (rows st)) \<and>
   sorted_wrt (\<lambda>a b. created_at b \<le> created_at a) (get_user_tasks st u)"
proof -
  have "sorted (map (\<lambda>t. - int (created_at t))
          (sort_key (\<lambda>t. - int (created_at t)) (filter (\<lambda>t. user t = u) (rows st))))"
    by (rule sorted_sort_key)
  then have "sorted_wrt (\<lambda>a b. created_at b \<le> created_at a) (get_by_user st u)"
    by (simp add: get_by_user_def sorted_map)
  then show ?thesis
    by (auto simp: get_user_tasks_def get_by_user_def)
qed

theorem get_user_tasks_sorted_witness:
  "get_user_tasks \<lparr>rows = [example_task, other_task\<lparr>user := 7\<rparr>], next_id = 3\<rparr> 7 =
     [other_task\<lparr>user := 7\<rparr>, example_task] \<and>
   sorted_wrt (\<lambda>a b. created_at b \<le> created_at a)
     (get_user_tasks \<lparr>rows = [example_task, other_task\<lparr>user := 7\<rparr>], next_id = 3\<rparr> 7)"
proof -
  have "get_user_tasks \<lparr>rows = [example_task, other_task\<lparr>user := 7\<rparr>], next_id = 3\<rparr> 7 =
     [other_task\<lparr>user := 7\<rparr>, example_task]"
    by (simp add: get_user_tasks_def get_by_user_def example_task_def other_task_def)
  then show ?thesis
    using get_user_tasks_sorted
      [of "\<lparr>rows = [example_task, other_task\<lparr>user := 7\<rparr>], next_id = 3\<rparr>" 7]
    by blast
qed

subsection \<open>C10: an update that supplies nothing\<close>

text \<open>
  C10. For every task owned by the requester, \<open>update_task\<close> with both the title and
  the description absent succeeds and returns the task as stored; afterwards every id
  looks up the task it did before, and a store whose ids are distinct (as \<open>wf_store\<close>,
  which every operation preserves, guarantees) is left exactly as it was.
\<close>

theorem update_task_nothing:
  assumes "get_by_id st tid = Some task" and "user task = u"
  shows "fst (update_task st tid u None None) = Inr task \<and>
         (\<forall>j. get_by_id (snd (update_task st tid u None None)) j = get_by_id st j) \<and>
         (distinct (map task_id (rows st)) \<longrightarrow> snd (update_task st tid u None None) = st)"
proof -
  have g: "get_task_by_id st tid u = Inr task"
    using assms by (rule get_task_by_id_owner)
  have u: "update_task st tid u None None = (Inr task, save st task)"
    using g by (simp add: update_task_def update_def)
  have "get_by_id (save st task) j = get_by_id st j" for j
    using get_by_id_save [OF assms(1) get_by_id_task_id [OF assms(1)], of j] assms(1) by simp
  then show ?thesis
    using u save_same [OF assms(1)] by simp
qed

theorem update_task_nothing_witness:
  "get_by_id example_store 1 = Some example_task \<and> user example_task = 7 \<and>
   distinct (map task_id (rows example_store)) \<and>
   update_task example_store 1 7 None None = (Inr example_task, example_store)"
proof -
  have d: "distinct (map task_id (rows example_store))"
    by (simp add: example_store_def example_task_def other_task_def)
  have "fst (update_task example_store 1 7 None None) = Inr example_task"
    and "snd (update_task example_store 1 7 None None) = example_store"
    using d update_task_nothing [OF get_by_id_example user_example] by blast+
  then have "update_task example_store 1 7 None None = (Inr example_task, example_store)"
    by (metis prod.collapse)
  then show ?thesis
    using d get_by_id_example user_example by blast
qed

end
